theory Spec2Isabelle
  imports Main
begin

text \<open>
  A small HTTP server in C++: a socket, a request with its parser, a response that is
  serialised onto the socket, and a server loop that ties them together. The sources
  hold two variants. The later one parses the request byte by byte with a state machine
  (\<^verbatim>\<open>request::parse_and_build\<close>), fed buffer by buffer from the server loop; it is
  the one embedded here in full. The older one (\<^verbatim>\<open>src/main.cpp\<close>) parses the whole
  raw request in one pass (\<^verbatim>\<open>request::parse\<close>); its parser is embedded as well, for
  the places where the two differ.
\<close>

section \<open>Bytes and strings\<close>

text \<open>
  A C++ \<^verbatim>\<open>char\<close> is a byte, modelled by \<^typ>\<open>char\<close>; a \<^verbatim>\<open>std::string\<close> is a
  \<^typ>\<open>string\<close>. \<^verbatim>\<open>std::tolower\<close> is taken in the "C" locale: the 26 upper-case ASCII
  letters move down by 32, every other byte is returned as it is.
\<close>

definition tolower :: "char \<Rightarrow> char" where
  "tolower c =
     (let n = (of_char c :: nat) in if 65 \<le> n \<and> n \<le> 90 then char_of (n + 32) else c)"

abbreviation SP :: char where "SP \<equiv> CHR '' ''"
abbreviation CR :: char where "CR \<equiv> CHR 0x0D"
abbreviation LF :: char where "LF \<equiv> CHR 0x0A"

section \<open>Errors\<close>

text \<open>
  What the source throws: \<^verbatim>\<open>std::logic_error\<close> and \<^verbatim>\<open>std::runtime_error\<close> with
  their message, \<^verbatim>\<open>std::system_error\<close> with \<^verbatim>\<open>errno\<close> and the name of the call,
  and the \<^verbatim>\<open>std::out_of_range\<close> of \<^verbatim>\<open>unordered_map::at\<close>. \<open>Undefined\<close> stands for
  the places where the language promises nothing: an iterator moved past the end of its
  string, a range that starts after its end.
\<close>

datatype error =
  Logic_error string | Runtime_error string | System_error int string | Out_of_range | Undefined

section \<open>The request and its byte-driven parser\<close>

text \<open>
  \<^verbatim>\<open>enum class parse_state\<close>, in the order of the source. The constructors are
  capitalised: \<^verbatim>\<open>done\<close> is a keyword of the proof language.
\<close>

datatype parse_state =
    Method | Path | Query | Protocol | Http_version | Header_key | Header_value
  | Body | Cr | Crlf | Crlfcr | Done | Invalid

text \<open>
  \<^verbatim>\<open>std::unordered_map<std::string, std::string>\<close> is an association list with
  distinct keys; the order of the list stands for the (unspecified) iteration order.
  \<^verbatim>\<open>insert\<close> and \<^verbatim>\<open>emplace\<close> add the pair only when the key is absent.
\<close>

type_synonym header_map = "(string \<times> string) list"

definition insert_header :: "string \<times> string \<Rightarrow> header_map \<Rightarrow> header_map" where
  "insert_header kv h = (case map_of h (fst kv) of None \<Rightarrow> h @ [kv] | Some _ \<Rightarrow> h)"

text \<open>
  \<^verbatim>\<open>class request\<close>. The members lose their trailing underscore, which the
  logic does not allow in a name; \<^verbatim>\<open>method_\<close> is \<open>http_method\<close>.
  \<^verbatim>\<open>request() = default\<close> is \<open>new_request\<close>: empty fields, state
  \<^verbatim>\<open>method\<close>.
\<close>

record request =
  headers :: header_map
  http_method :: string
  original_url :: string
  path :: string
  protocol :: string
  hostname :: string
  body :: string
  http_version :: string
  state :: parse_state

definition new_request :: request where
  "new_request = \<lparr>headers = [], http_method = [], original_url = [], path = [],
     protocol = [], hostname = [], body = [], http_version = [], state = Method\<rparr>"

text \<open>
  One iteration of the \<^verbatim>\<open>for\<close> loop of \<^verbatim>\<open>request::parse_and_build\<close>: the
  \<^verbatim>\<open>switch\<close> on \<^verbatim>\<open>state\<close> for the byte \<open>it\<close>. The local variable
  \<^verbatim>\<open>header_buffer\<close> is the pair \<open>hb\<close>, threaded beside the object.
\<close>

type_synonym header_buffer = "string \<times> string"

definition step :: "request \<times> header_buffer \<Rightarrow> char \<Rightarrow> request \<times> header_buffer" where
  "step rb it =
     (let r = fst rb; hb = snd rb in
      case state r of
        Method \<Rightarrow>
          if it = SP then (r\<lparr>state := Path\<rparr>, hb)
          else (r\<lparr>http_method := http_method r @ [it]\<rparr>, hb)
      | Path \<Rightarrow>
          if it = SP then (r\<lparr>state := Protocol, original_url := path r\<rparr>, hb)
          else if it = CHR ''?'' then (r\<lparr>state := Query\<rparr>, hb)
          else (r\<lparr>path := path r @ [it]\<rparr>, hb)
      | Query \<Rightarrow>
          if it = SP then (r\<lparr>state := Protocol, original_url := path r\<rparr>, hb)
          else (r, hb)
      | Protocol \<Rightarrow>
          if it = CHR ''/'' then (r\<lparr>state := Http_version\<rparr>, hb)
          else (r\<lparr>protocol := protocol r @ [it]\<rparr>, hb)
      | Http_version \<Rightarrow>
          if it = CR then (r\<lparr>state := Cr\<rparr>, hb)
          else (r\<lparr>http_version := http_version r @ [it]\<rparr>, hb)
      | Header_key \<Rightarrow>
          if it = CHR '':'' then (r\<lparr>state := Header_value\<rparr>, hb)
          else (r, (fst hb @ [tolower it], snd hb))
      | Header_value \<Rightarrow>
          if it = SP \<and> snd hb = [] then (r, hb)
          else if it = CR then
            (r\<lparr>headers := insert_header hb (headers r), state := Cr\<rparr>, ([], []))
          else (r, (fst hb, snd hb @ [it]))
      | Body \<Rightarrow> (r\<lparr>body := body r @ [it]\<rparr>, hb)
      | Cr \<Rightarrow>
          if it = LF then (r\<lparr>state := Crlf\<rparr>, hb)
          else (r\<lparr>state := Invalid\<rparr>, hb)
      | Crlf \<Rightarrow>
          if it = CR then (r\<lparr>state := Crlfcr\<rparr>, hb)
          else (r\<lparr>state := Header_key\<rparr>, (fst hb @ [tolower it], snd hb))
      | Crlfcr \<Rightarrow>
          if it = LF then (r\<lparr>state := Done\<rparr>, hb)
          else (r\<lparr>state := Invalid\<rparr>, hb)
      | Done \<Rightarrow> (r\<lparr>state := Done\<rparr>, hb)
      | Invalid \<Rightarrow> (r, hb))"

text \<open>The \<^verbatim>\<open>for\<close> loop over the \<open>recv_size\<close> bytes of the buffer.\<close>

fun parse_loop :: "request \<times> header_buffer \<Rightarrow> string \<Rightarrow> request \<times> header_buffer" where
  "parse_loop rb [] = rb"
| "parse_loop rb (it # buffer) = parse_loop (step rb it) buffer"

text \<open>
  \<^verbatim>\<open>request::parse_and_build\<close>: \<^verbatim>\<open>header_buffer\<close> is declared inside the function,
  so every call starts with an empty pair and drops the pair it ends with.
\<close>

definition parse_and_build :: "request \<Rightarrow> string \<Rightarrow> request" where
  "parse_and_build r buffer = fst (parse_loop (r, ([], [])) buffer)"

text \<open>Feeding a sequence of chunks: one call of \<^verbatim>\<open>parse_and_build\<close> per chunk.\<close>

fun feed :: "request \<Rightarrow> string list \<Rightarrow> request" where
  "feed r [] = r"
| "feed r (chunk # chunks) = feed (parse_and_build r chunk) chunks"

text \<open>
  A header map whose names are all lower-cased: no byte of a name is changed by
  \<open>tolower\<close>.
\<close>

definition names_lower :: "header_map \<Rightarrow> bool" where
  "names_lower h = list_all (\<lambda>kv. list_all (\<lambda>c. tolower c = c) (fst kv)) h"

section \<open>The one-pass parser of the older variant\<close>

text \<open>
  \<^verbatim>\<open>src/main.cpp\<close> holds an older variant of the program. Its \<^verbatim>\<open>request\<close> is built
  in one pass by \<^verbatim>\<open>request::parse\<close> from the whole raw request; it has the same
  members except the state. The members are prefixed with \<open>main\<close> here.
\<close>

record main_request =
  main_headers :: header_map
  main_method :: string
  main_original_url :: string
  main_path :: string
  main_protocol :: string
  main_hostname :: string
  main_body :: string
  main_http_version :: string

text \<open>The constants \<^verbatim>\<open>delimiter\<close> and \<^verbatim>\<open>newline\<close> of the class.\<close>

definition delimiter :: string where
  "delimiter = [CR, LF, CR, LF]"

definition newline :: string where
  "newline = [CR, LF]"

text \<open>
  \<^verbatim>\<open>std::search\<close>: the bytes before the first occurrence of the needle and the bytes
  after it, or \<open>None\<close> when the needle does not occur (the end iterator).
\<close>

fun search :: "string \<Rightarrow> string \<Rightarrow> (string \<times> string) option" where
  "search needle [] = (if needle = [] then Some ([], []) else None)"
| "search needle (c # cs) =
     (if take (length needle) (c # cs) = needle then Some ([], drop (length needle) (c # cs))
      else case search needle cs of
        None \<Rightarrow> None
      | Some found \<Rightarrow> Some (c # fst found, snd found))"

text \<open>\<^verbatim>\<open>headers_[key]\<close>: the value, and the map with the key added when it was absent.\<close>

definition index_header :: "header_map \<Rightarrow> string \<Rightarrow> string \<times> header_map" where
  "index_header h k = (case map_of h k of None \<Rightarrow> ([], h @ [(k, [])]) | Some v \<Rightarrow> (v, h))"

text \<open>
  The \<^verbatim>\<open>while\<close> loop over the header lines, on the bytes from \<open>header_begin\<close> to
  \<open>headers_end\<close>: the line runs to the next line break or to the end; a line with no
  colon throws; the value starts two bytes after the colon, which is past the end of the
  line when the colon is its last byte; \<^verbatim>\<open>emplace\<close> keeps an existing name.
\<close>

function parse_headers :: "string \<Rightarrow> header_map \<Rightarrow> error + header_map" where
  "parse_headers region h =
     (if region = [] then Inr h
      else
        let found = search newline region;
            line = (case found of None \<Rightarrow> region | Some f \<Rightarrow> fst f);
            key = takeWhile (\<lambda>c. c \<noteq> CHR '':'') line;
            from_colon = dropWhile (\<lambda>c. c \<noteq> CHR '':'') line
        in if from_colon = [] then Inl (Runtime_error ''key end not found'')
           else if tl from_colon = [] then Inl Undefined
           else
             let h' = insert_header (key, tl (tl from_colon)) h
             in case found of None \<Rightarrow> Inr h' | Some f \<Rightarrow> parse_headers (snd f) h')"
  by pat_completeness auto
termination
proof (relation "measure (\<lambda>(region, h). length region)")
  show "wf (measure (\<lambda>(region, h). length region))" by simp
next
  fix region :: string and h :: header_map and found line key from_colon h' f
  assume found: "found = search newline region" "found = Some f"
  have shorter: "search newline hay = Some g \<Longrightarrow> length (snd g) < length hay" for hay g
  proof (induction hay arbitrary: g)
    case Nil
    then show ?case by (simp add: newline_def)
  next
    case (Cons c cs)
    show ?case
    proof (cases "take (length newline) (c # cs) = newline")
      case True
      then have "g = ([], drop (length newline) (c # cs))" using Cons.prems by simp
      then show ?thesis by (simp add: newline_def)
    next
      case False
      then obtain g' where g': "search newline cs = Some g'" and "g = (c # fst g', snd g')"
        using Cons.prems by (auto split: option.splits)
      then show ?thesis using Cons.IH [OF g'] by simp
    qed
  qed
  show "((snd f, h'), (region, h)) \<in> measure (\<lambda>(region, h). length region)"
    using shorter [of region f] found by simp
qed

declare parse_headers.simps [simp del]

text \<open>
  \<^verbatim>\<open>request::parse\<close>. The searches for the two spaces and the slash of the request line
  go on from one past the position found, which is past the end when there was none.
\<close>

definition parse :: "string \<Rightarrow> error + main_request" where
  "parse raw_request =
     (if raw_request = [] then
        Inr \<lparr>main_headers = [], main_method = [], main_original_url = [], main_path = [],
             main_protocol = [], main_hostname = [], main_body = [], main_http_version = []\<rparr>
      else case search delimiter raw_request of
        None \<Rightarrow> Inl (Runtime_error ''there is not delimiter in the raw request'')
      | Some split \<Rightarrow>
          let first = search newline (fst split);
              request_line = (case first of None \<Rightarrow> fst split | Some f \<Rightarrow> fst f);
              region = (case first of None \<Rightarrow> [] | Some f \<Rightarrow> snd f);
              from_method_end = dropWhile (\<lambda>c. c \<noteq> SP) request_line
          in if from_method_end = [] then Inl Undefined
             else
               let original_url = takeWhile (\<lambda>c. c \<noteq> SP) (tl from_method_end);
                   from_url_end = dropWhile (\<lambda>c. c \<noteq> SP) (tl from_method_end)
               in if from_url_end = [] then Inl Undefined
                  else
                    let from_protocol_end = dropWhile (\<lambda>c. c \<noteq> CHR ''/'') (tl from_url_end)
                    in if from_protocol_end = [] then Inl Undefined
                       else
                         (case parse_headers region [] of
                            Inl e \<Rightarrow> Inl e
                          | Inr h \<Rightarrow>
                              let host = index_header h ''Host''
                              in Inr \<lparr>main_headers = snd host,
                                   main_method =
                                     map tolower (takeWhile (\<lambda>c. c \<noteq> SP) request_line),
                                   main_original_url = original_url,
                                   main_path = takeWhile (\<lambda>c. c \<noteq> CHR ''?'') original_url,
                                   main_protocol =
                                     map tolower
                                       (takeWhile (\<lambda>c. c \<noteq> CHR ''/'') (tl from_url_end)),
                                   main_hostname = takeWhile (\<lambda>c. c \<noteq> CHR '':'') (fst host),
                                   main_body = snd split,
                                   main_http_version = tl from_protocol_end\<rparr>))"

section \<open>The connection\<close>

text \<open>
  \<^verbatim>\<open>class socket\<close>. A descriptor equal to 0 means "not created" or "not accepted".
  The operating system is outside the program: the value a system call returns and the
  \<^verbatim>\<open>errno\<close> it leaves are arguments of the model, and so is the constant
  \<^verbatim>\<open>EAGAIN\<close> of \<^verbatim>\<open>errno.h\<close>.
\<close>

record socket =
  sock :: int
  accepted_sock :: int
  port :: int

definition new_socket :: "int \<Rightarrow> socket" where
  "new_socket p = \<lparr>sock = 0, accepted_sock = 0, port = p\<rparr>"

text \<open>
  \<^verbatim>\<open>socket::connect\<close>: \<open>fd\<close> is what \<^verbatim>\<open>::socket\<close> returns, \<open>bind_ret\<close> what
  \<^verbatim>\<open>::bind\<close> returns.
\<close>

definition socket_connect :: "socket \<Rightarrow> int \<Rightarrow> int \<Rightarrow> int \<Rightarrow> error + socket" where
  "socket_connect s fd bind_ret errno =
     (if fd < 0 then Inl (System_error errno ''socket'')
      else if bind_ret \<noteq> 0 then Inl (System_error errno ''bind'')
      else Inr (s\<lparr>sock := fd\<rparr>))"

definition socket_listen :: "socket \<Rightarrow> int \<Rightarrow> int \<Rightarrow> error + unit" where
  "socket_listen s listen_ret errno =
     (if sock s = 0 then Inl (Logic_error ''socket is not created'')
      else if listen_ret \<noteq> 0 then Inl (System_error errno ''listen'')
      else Inr ())"

text \<open>
  \<^verbatim>\<open>socket::accept\<close> retries while \<^verbatim>\<open>::accept\<close> returns a value \<open>\<le> 0\<close> with
  \<^verbatim>\<open>EAGAIN\<close>. The list holds the outcomes (return value, \<^verbatim>\<open>errno\<close>) of the
  successive calls; when it is used up the loop is still spinning, which is \<open>None\<close>.
\<close>

fun accept_loop :: "int \<Rightarrow> socket \<Rightarrow> (int \<times> int) list \<Rightarrow> (error + socket) option" where
  "accept_loop eagain s [] = None"
| "accept_loop eagain s (outcome # outcomes) =
     (if fst outcome \<le> 0 then
        (if snd outcome = eagain
         then accept_loop eagain (s\<lparr>accepted_sock := fst outcome\<rparr>) outcomes
         else Some (Inl (System_error (snd outcome) ''accept'')))
      else Some (Inr (s\<lparr>accepted_sock := fst outcome\<rparr>)))"

definition socket_accept :: "int \<Rightarrow> socket \<Rightarrow> (int \<times> int) list \<Rightarrow> (error + socket) option" where
  "socket_accept eagain s outcomes =
     (if sock s = 0 then Some (Inl (Logic_error ''socket is not created''))
      else accept_loop eagain s outcomes)"

text \<open>
  One call of \<^verbatim>\<open>::recv\<close> either delivers bytes (none when the peer has closed the
  stream) or fails with an \<^verbatim>\<open>errno\<close>. \<^verbatim>\<open>socket::recv\<close> returns \<open>recv_size\<close>
  together with the bytes now in the caller's buffer; at most \<open>sz\<close> bytes (the
  \<^verbatim>\<open>size\<close> argument) are delivered.
\<close>

datatype os_recv = Delivered string | Failed int

definition socket_recv :: "int \<Rightarrow> socket \<Rightarrow> nat \<Rightarrow> os_recv \<Rightarrow> error + int \<times> string" where
  "socket_recv eagain s sz outcome =
     (if accepted_sock s = 0 then Inl (Logic_error ''socket is not accepted'')
      else case outcome of
        Failed errno \<Rightarrow>
          if errno = eagain then Inr (- 1, []) else Inl (System_error errno ''recv'')
      | Delivered bytes \<Rightarrow> Inr (int (length (take sz bytes)), take sz bytes))"

text \<open>
  \<^verbatim>\<open>socket::send\<close> hands the bytes to \<^verbatim>\<open>::send\<close> on \<^verbatim>\<open>accepted_sock_\<close>
  whatever its value; \<open>send_ret\<close> is what the system call returns.
\<close>

definition socket_send :: "socket \<Rightarrow> string \<Rightarrow> int \<Rightarrow> int \<Rightarrow> error + unit" where
  "socket_send s buf send_ret errno =
     (if send_ret < 0 then Inl (System_error errno []) else Inr ())"

section \<open>The response\<close>

text \<open>
  \<^verbatim>\<open>operator<<\<close> for a \<^verbatim>\<open>std::size_t\<close> and for an \<^verbatim>\<open>int\<close>: the decimal
  numeral, with a minus sign for a negative \<^verbatim>\<open>int\<close>.
\<close>

fun show_nat :: "nat \<Rightarrow> string" where
  "show_nat n =
     (if n < 10 then [char_of (48 + n)]
      else show_nat (n div 10) @ [char_of (48 + n mod 10)])"

declare show_nat.simps [simp del]

definition show_int :: "int \<Rightarrow> string" where
  "show_int i = (if i < 0 then CHR ''-'' # show_nat (nat (- i)) else show_nat (nat i))"

text \<open>The number a decimal numeral denotes, to say what a printed length means.\<close>

definition decimal_value :: "string \<Rightarrow> nat" where
  "decimal_value ds = foldl (\<lambda>acc d. 10 * acc + (of_char d - 48)) 0 ds"

text \<open>
  \<^verbatim>\<open>class response\<close>: the request and the socket it is bound to, its own headers, the
  status (an \<^verbatim>\<open>int\<close>, 200 at construction) and the status message (empty at
  construction).
\<close>

record response =
  res_request :: request
  res_sock :: socket
  res_headers :: header_map
  res_status :: int
  res_status_message :: string

definition new_response :: "request \<Rightarrow> socket \<Rightarrow> response" where
  "new_response req s =
     \<lparr>res_request = req, res_sock = s, res_headers = [], res_status = 200,
      res_status_message = []\<rparr>"

text \<open>
  A \<^verbatim>\<open>std::string\<close> where its size and its storage matter: the characters of the
  string are the first \<open>str_size\<close> bytes of the storage, the rest is reserved capacity.
  \<^verbatim>\<open>reserve\<close> enlarges the storage and leaves the size alone.
  \<^verbatim>\<open>std::transform\<close> with the destination \<^verbatim>\<open>begin()\<close> writes the images through
  the iterator, byte after byte from the start of the storage; it never changes the size.
  (The standard leaves writes beyond the size undefined; in the common implementations
  they land in the reserved storage, which is what is modelled.)
\<close>

record cxx_string =
  str_size :: nat
  str_data :: string

definition empty_string :: cxx_string where
  "empty_string = \<lparr>str_size = 0, str_data = []\<rparr>"

definition str_value :: "cxx_string \<Rightarrow> string" where
  "str_value s = take (str_size s) (str_data s)"

definition reserve :: "nat \<Rightarrow> cxx_string \<Rightarrow> cxx_string" where
  "reserve n s = s\<lparr>str_data := str_data s @ replicate (n - length (str_data s)) (CHR 0x00)\<rparr>"

definition transform_begin :: "(char \<Rightarrow> char) \<Rightarrow> string \<Rightarrow> cxx_string \<Rightarrow> cxx_string" where
  "transform_begin f src s = s\<lparr>str_data := map f src @ drop (length src) (str_data s)\<rparr>"

text \<open>The local \<^verbatim>\<open>lower_header\<close> of \<^verbatim>\<open>set_header\<close> and \<^verbatim>\<open>get_header\<close>.\<close>

definition lower_header :: "string \<Rightarrow> string" where
  "lower_header header =
     str_value (transform_begin tolower header (reserve (length header) empty_string))"

definition set_header :: "response \<Rightarrow> string \<Rightarrow> string \<Rightarrow> response" where
  "set_header res header val =
     res\<lparr>res_headers := insert_header (lower_header header, val) (res_headers res)\<rparr>"

definition get_header :: "response \<Rightarrow> string \<Rightarrow> error + string" where
  "get_header res header =
     (case map_of (res_headers res) (lower_header header) of
        None \<Rightarrow> Inl Out_of_range
      | Some v \<Rightarrow> Inr v)"

definition status :: "response \<Rightarrow> int \<Rightarrow> response" where
  "status res code = res\<lparr>res_status := code\<rparr>"

definition status_message :: "response \<Rightarrow> string \<Rightarrow> response" where
  "status_message res message = res\<lparr>res_status_message := message\<rparr>"

text \<open>
  The static table \<^verbatim>\<open>default_status_messages\<close>. It is indexed with
  \<^verbatim>\<open>operator[]\<close>, which adds an absent key with an empty text, so the table is part
  of the state: \<open>index_table\<close> returns the text and the table afterwards.
\<close>

type_synonym status_table = "(int \<times> string) list"

definition default_status_messages :: status_table where
  "default_status_messages = [(200, ''OK''), (400, ''Bad Request''), (404, ''Not Found'')]"

definition index_table :: "status_table \<Rightarrow> int \<Rightarrow> string \<times> status_table" where
  "index_table tbl code =
     (case map_of tbl code of None \<Rightarrow> ([], tbl @ [(code, [])]) | Some text \<Rightarrow> (text, tbl))"

text \<open>The local \<^verbatim>\<open>message\<close> of \<^verbatim>\<open>response::send\<close>.\<close>

definition send_message :: "status_table \<Rightarrow> response \<Rightarrow> string \<times> status_table" where
  "send_message tbl res =
     (if res_status_message res \<noteq> [] then (res_status_message res, tbl)
      else index_table tbl (res_status res))"

text \<open>
  The table after \<^verbatim>\<open>operator[]\<close> has been applied to it with the codes of the
  list, one after the other, starting from the table the program is loaded with: the
  states of the table that the sends of a run can reach.
\<close>

definition table_after :: "int list \<Rightarrow> status_table" where
  "table_after codes = foldl (\<lambda>tbl code. snd (index_table tbl code)) default_status_messages codes"

text \<open>What \<^verbatim>\<open>response::send\<close> writes into the string stream, statement by statement.\<close>

definition status_line :: "response \<Rightarrow> string \<Rightarrow> string" where
  "status_line res message =
     protocol (res_request res) @ ''/'' @ http_version (res_request res) @ '' '' @
     show_int (res_status res) @ '' '' @ message @ [CR, LF]"

definition header_lines :: "header_map \<Rightarrow> string" where
  "header_lines h = concat (map (\<lambda>hv. fst hv @ '': '' @ snd hv @ [CR, LF]) h)"

definition send_stream :: "response \<Rightarrow> string \<Rightarrow> string \<Rightarrow> string" where
  "send_stream res message body' =
     status_line res message @ header_lines (res_headers res) @
     (if body' \<noteq> [] then
        ''Content-Length: '' @ show_nat (length body') @ [CR, LF] @
        ''Content-Type: text/html'' @ [CR, LF]
      else []) @
     ''Connection: Keep-Alive'' @ [CR, LF] @
     [CR, LF] @
     (if body' \<noteq> [] then body' else [])"

text \<open>
  \<^verbatim>\<open>response::send\<close>: the bytes handed to the socket when the write succeeds, or the
  error of \<^verbatim>\<open>socket::send\<close>; and the status table afterwards.
\<close>

definition send :: "status_table \<Rightarrow> response \<Rightarrow> string \<Rightarrow> int \<Rightarrow> int \<Rightarrow> (error + string) \<times> status_table" where
  "send tbl res body' send_ret errno =
     (let m = send_message tbl res;
          wire = send_stream res (fst m) body'
      in (case socket_send (res_sock res) wire send_ret errno of
            Inl e \<Rightarrow> Inl e
          | Inr _ \<Rightarrow> Inr wire,
          snd m))"

section \<open>The receive loop of the server\<close>

text \<open>
  The inner \<^verbatim>\<open>while (true)\<close> of \<^verbatim>\<open>server::listen\<close>: receive into a buffer of 256
  bytes (at most 255 are asked for), stop when the peer has closed, go round again on a
  negative \<open>recv_size\<close>, otherwise parse the bytes and stop once the state is
  \<^verbatim>\<open>done\<close>, after setting the host name. The list holds the outcomes of the successive
  \<^verbatim>\<open>::recv\<close> calls; when it is used up the loop is still waiting, which is \<open>None\<close>.
\<close>

fun receive_request :: "int \<Rightarrow> socket \<Rightarrow> request \<Rightarrow> os_recv list \<Rightarrow> (error + request) option" where
  "receive_request eagain s req [] = None"
| "receive_request eagain s req (outcome # outcomes) =
     (case socket_recv eagain s 255 outcome of
        Inl e \<Rightarrow> Some (Inl e)
      | Inr received \<Rightarrow>
          if fst received = 0 then Some (Inr req)
          else if fst received < 0 then receive_request eagain s req outcomes
          else
            let req' = parse_and_build req (snd received) in
            if state req' = Done then Some (Inr (req'\<lparr>hostname := ''localhost''\<rparr>))
            else receive_request eagain s req' outcomes)"

section \<open>Properties of the parser\<close>

subsection \<open>The loop, state by state\<close>

lemma parse_loop_append:
  "parse_loop rb (xs @ ys) = parse_loop (parse_loop rb xs) ys"
  by (induction xs arbitrary: rb) simp_all

lemma step_Done: "state r = Done \<Longrightarrow> step (r, hb) it = (r, hb)"
  by (simp add: step_def)

lemma step_Invalid: "state r = Invalid \<Longrightarrow> step (r, hb) it = (r, hb)"
  by (simp add: step_def)

lemma step_Cr:
  "state r = Cr \<Longrightarrow>
   step (r, hb) it = (if it = LF then (r\<lparr>state := Crlf\<rparr>, hb) else (r\<lparr>state := Invalid\<rparr>, hb))"
  by (simp add: step_def)

lemma step_Crlfcr:
  "state r = Crlfcr \<Longrightarrow>
   step (r, hb) it = (if it = LF then (r\<lparr>state := Done\<rparr>, hb) else (r\<lparr>state := Invalid\<rparr>, hb))"
  by (simp add: step_def)

lemma step_Crlf:
  "state r = Crlf \<Longrightarrow>
   step (r, hb) it =
     (if it = CR then (r\<lparr>state := Crlfcr\<rparr>, hb)
      else (r\<lparr>state := Header_key\<rparr>, (fst hb @ [tolower it], snd hb)))"
  by (simp add: step_def)

lemma step_Header_key:
  "state r = Header_key \<Longrightarrow>
   step (r, hb) it =
     (if it = CHR '':'' then (r\<lparr>state := Header_value\<rparr>, hb)
      else (r, (fst hb @ [tolower it], snd hb)))"
  by (simp add: step_def)

lemma step_Header_value:
  "state r = Header_value \<Longrightarrow>
   step (r, hb) it =
     (if it = SP \<and> snd hb = [] then (r, hb)
      else if it = CR then
        (r\<lparr>headers := insert_header hb (headers r), state := Cr\<rparr>, ([], []))
      else (r, (fst hb, snd hb @ [it])))"
  by (simp add: step_def)

lemma step_Http_version:
  "state r = Http_version \<Longrightarrow>
   step (r, hb) it =
     (if it = CR then (r\<lparr>state := Cr\<rparr>, hb)
      else (r\<lparr>http_version := http_version r @ [it]\<rparr>, hb))"
  by (simp add: step_def)

lemma key_loop:
  "state r = Header_key \<Longrightarrow> CHR '':'' \<notin> set ks \<Longrightarrow>
   parse_loop (r, (k, v)) ks = (r, (k @ map tolower ks, v))"
  by (induction ks arbitrary: k) (auto simp: step_Header_key)

lemma value_loop:
  "state r = Header_value \<Longrightarrow> CR \<notin> set vs \<Longrightarrow> v \<noteq> [] \<or> vs = [] \<or> hd vs \<noteq> SP \<Longrightarrow>
   parse_loop (r, (k, v)) vs = (r, (k, v @ vs))"
proof (induction vs arbitrary: v)
  case Nil
  then show ?case by simp
next
  case (Cons c cs)
  have "step (r, (k, v)) c = (r, (k, v @ [c]))"
    using Cons.prems by (auto simp: step_Header_value)
  moreover have "parse_loop (r, (k, v @ [c])) cs = (r, (k, (v @ [c]) @ cs))"
    using Cons.prems by (intro Cons.IH) simp_all
  ultimately show ?case by simp
qed

lemma tolower_idem: "tolower (tolower c) = tolower c"
  by (simp add: tolower_def Let_def)

lemma trimmed_value_loop:
  "state r = Header_value \<Longrightarrow> CR \<notin> set w \<Longrightarrow>
   parse_loop (r, (k, [])) w = (r, (k, dropWhile (\<lambda>c. c = SP) w))"
proof (induction w)
  case Nil
  then show ?case by simp
next
  case (Cons c cs)
  show ?case
  proof (cases "c = SP")
    case True
    then have "step (r, (k, [])) c = (r, (k, []))"
      using Cons.prems by (simp add: step_Header_value)
    then show ?thesis using True Cons by simp
  next
    case False
    then have "step (r, (k, [])) c = (r, (k, [c]))"
      using Cons.prems by (auto simp: step_Header_value)
    moreover have "parse_loop (r, (k, [c])) cs = (r, (k, [c] @ cs))"
      using Cons.prems by (intro value_loop) simp_all
    ultimately show ?thesis using False by simp
  qed
qed

lemma header_line:
  assumes "state r = Crlf" and "name \<noteq> []" and "hd name \<noteq> CR"
    and "CHR '':'' \<notin> set (tl name)" and "CR \<notin> set w"
  shows "parse_loop (r, ([], [])) (name @ '':'' @ w) =
           (r\<lparr>state := Header_value\<rparr>, (map tolower name, dropWhile (\<lambda>c. c = SP) w))"
    and "parse_loop (r, ([], [])) (name @ '':'' @ w @ [CR]) =
           (r\<lparr>headers := insert_header (map tolower name, dropWhile (\<lambda>c. c = SP) w) (headers r),
              state := Cr\<rparr>, ([], []))"
proof -
  obtain k0 ks where name: "name = k0 # ks" using assms(2) by (cases name) auto
  let ?r1 = "r\<lparr>state := Header_key\<rparr>"
  let ?r2 = "r\<lparr>state := Header_value\<rparr>"
  let ?v = "dropWhile (\<lambda>c. c = SP) w"
  have 1: "step (r, ([], [])) k0 = (?r1, ([tolower k0], []))"
    using assms(1,3) by (simp add: name step_Crlf)
  have 2: "parse_loop (?r1, ([tolower k0], [])) ks = (?r1, ([tolower k0] @ map tolower ks, []))"
    using assms(4) by (intro key_loop) (simp_all add: name)
  have 3: "step (?r1, (map tolower name, [])) (CHR '':'') = (?r2, (map tolower name, []))"
    by (simp add: step_Header_key)
  have 4: "parse_loop (?r2, (map tolower name, [])) w = (?r2, (map tolower name, ?v))"
    using assms(5) by (intro trimmed_value_loop) simp_all
  have 5: "step (?r2, (map tolower name, ?v)) CR =
             (r\<lparr>headers := insert_header (map tolower name, ?v) (headers r),
                state := Cr\<rparr>, ([], []))"
    by (simp add: step_Header_value)
  have 6: "parse_loop (r, ([], [])) (name @ '':'') = (?r2, (map tolower name, []))"
    using 1 2 3 by (simp add: name parse_loop_append)
  show "parse_loop (r, ([], [])) (name @ '':'' @ w) = (?r2, (map tolower name, ?v))"
    using 6 4 parse_loop_append [of "(r, ([], []))" "name @ '':''" w] by simp
  then show "parse_loop (r, ([], [])) (name @ '':'' @ w @ [CR]) =
           (r\<lparr>headers := insert_header (map tolower name, ?v) (headers r),
              state := Cr\<rparr>, ([], []))"
    using 5 parse_loop_append [of "(r, ([], []))" "name @ '':'' @ w" "[CR]"] by simp
qed

lemma map_of_insert_header_new:
  "map_of h k = None \<Longrightarrow> map_of (insert_header (k, v) h) k = Some v"
  by (simp add: insert_header_def map_add_def)



lemma step_headers:
  "headers (fst (step (r, hb) it)) = headers r \<or>
   headers (fst (step (r, hb) it)) = insert_header hb (headers r)"
  by (cases "state r") (simp_all add: step_def)

lemma step_buffer_name:
  "fst (snd (step (r, hb) it)) = fst hb \<or>
   fst (snd (step (r, hb) it)) = fst hb @ [tolower it] \<or>
   fst (snd (step (r, hb) it)) = []"
  by (cases "state r") (simp_all add: step_def)

lemma names_lower_insert:
  "names_lower h \<Longrightarrow> list_all (\<lambda>c. tolower c = c) (fst kv) \<Longrightarrow> names_lower (insert_header kv h)"
  by (simp add: names_lower_def insert_header_def split: option.splits)

lemma step_names_lower:
  assumes "names_lower (headers r)" and "list_all (\<lambda>c. tolower c = c) (fst hb)"
  shows "names_lower (headers (fst (step (r, hb) it))) \<and>
         list_all (\<lambda>c. tolower c = c) (fst (snd (step (r, hb) it)))"
proof
  show "names_lower (headers (fst (step (r, hb) it)))"
    using step_headers [of r hb it] assms by (auto simp: names_lower_insert)
  show "list_all (\<lambda>c. tolower c = c) (fst (snd (step (r, hb) it)))"
    using step_buffer_name [of r hb it] assms(2) by (auto simp: tolower_idem)
qed

lemma parse_loop_names_lower:
  "names_lower (headers r) \<Longrightarrow> list_all (\<lambda>c. tolower c = c) (fst hb) \<Longrightarrow>
   names_lower (headers (fst (parse_loop (r, hb) buffer)))"
proof (induction buffer arbitrary: r hb)
  case Nil
  then show ?case by simp
next
  case (Cons it buffer)
  obtain r' hb' where s: "step (r, hb) it = (r', hb')" by (cases "step (r, hb) it")
  have "names_lower (headers r') \<and> list_all (\<lambda>c. tolower c = c) (fst hb')"
    using step_names_lower [OF Cons.prems, of it] s by simp
  then show ?case using Cons.IH [of r' hb'] s by simp
qed

lemma parse_and_build_names_lower:
  "names_lower (headers r) \<Longrightarrow> names_lower (headers (parse_and_build r buffer))"
  by (simp add: parse_and_build_def parse_loop_names_lower)

lemma feed_names_lower:
  "names_lower (headers r) \<Longrightarrow> names_lower (headers (feed r chunks))"
  by (induction chunks arbitrary: r) (simp_all add: parse_and_build_names_lower)




lemma parse_and_build_Nil: "parse_and_build r [] = r"
  by (simp add: parse_and_build_def)

lemma parse_loop_terminal:
  "state r = Done \<or> state r = Invalid \<Longrightarrow> parse_loop (r, hb) buffer = (r, hb)"
  by (induction buffer) (auto simp: step_Done step_Invalid)

lemma parse_and_build_terminal:
  "state r = Done \<or> state r = Invalid \<Longrightarrow> parse_and_build r buffer = r"
  by (simp add: parse_and_build_def parse_loop_terminal)

lemma feed_terminal:
  "state r = Done \<or> state r = Invalid \<Longrightarrow> feed r chunks = r"
  by (induction chunks) (simp_all add: parse_and_build_terminal)

lemma bad_terminator_loop:
  assumes "state (fst rb) = Cr \<or> state (fst rb) = Crlfcr" and "it \<noteq> LF"
  shows "parse_loop rb (it # buffer) = ((fst rb)\<lparr>state := Invalid\<rparr>, snd rb)"
proof -
  obtain r hb where rb: "rb = (r, hb)" by (cases rb)
  have "step (r, hb) it = (r\<lparr>state := Invalid\<rparr>, hb)"
    using assms by (auto simp: rb step_Cr step_Crlfcr)
  then show ?thesis
    by (simp add: rb parse_loop_terminal)
qed


subsection \<open>Terminal states\<close>

text \<open>
  Claim C2. The states \<^verbatim>\<open>done\<close> and \<^verbatim>\<open>invalid\<close> are terminal: a request in one of
  them is returned unchanged, state and every field, by \<open>parse_and_build\<close> on any bytes
  and by any further sequence of chunks. A line terminator that goes wrong ends there:
  when the bytes \<open>pre\<close> have left the parser in \<^verbatim>\<open>cr\<close> or \<^verbatim>\<open>crlfcr\<close> (the states
  entered by the carriage return that ends the version, ends a header value or follows
  a line break) and the next byte is not a line feed, the state becomes \<^verbatim>\<open>invalid\<close>,
  and neither the rest of the buffer nor any later chunk changes a field: the request
  is the one reached after \<open>pre\<close>, with the state \<^verbatim>\<open>invalid\<close>.
\<close>

theorem terminal_states:
  "(state r = Done \<or> state r = Invalid \<longrightarrow>
      parse_and_build r buffer = r \<and> feed r chunks = r) \<and>
   ((state (parse_and_build r pre) = Cr \<or> state (parse_and_build r pre) = Crlfcr) \<and> it \<noteq> LF \<longrightarrow>
      feed (parse_and_build r (pre @ it # buffer)) chunks =
        (parse_and_build r pre)\<lparr>state := Invalid\<rparr>) \<and>
   (state r = Http_version \<or> state r = Header_value \<or> state r = Crlf \<longrightarrow>
      state (parse_and_build r [CR]) = Cr \<or> state (parse_and_build r [CR]) = Crlfcr)"
proof (intro conjI impI)
  assume "state r = Done \<or> state r = Invalid"
  then show "parse_and_build r buffer = r" by (rule parse_and_build_terminal)
next
  assume "state r = Done \<or> state r = Invalid"
  then show "feed r chunks = r" by (rule feed_terminal)
next
  assume a: "(state (parse_and_build r pre) = Cr \<or> state (parse_and_build r pre) = Crlfcr) \<and> it \<noteq> LF"
  let ?rb = "parse_loop (r, ([], [])) pre"
  have "parse_loop ?rb (it # buffer) = ((fst ?rb)\<lparr>state := Invalid\<rparr>, snd ?rb)"
    using a by (intro bad_terminator_loop) (simp_all add: parse_and_build_def)
  then have "parse_and_build r (pre @ it # buffer) = (parse_and_build r pre)\<lparr>state := Invalid\<rparr>"
    by (simp add: parse_and_build_def parse_loop_append)
  then show "feed (parse_and_build r (pre @ it # buffer)) chunks =
        (parse_and_build r pre)\<lparr>state := Invalid\<rparr>"
    by (simp add: feed_terminal)
next
  assume "state r = Http_version \<or> state r = Header_value \<or> state r = Crlf"
  then show "state (parse_and_build r [CR]) = Cr \<or> state (parse_and_build r [CR]) = Crlfcr"
    by (auto simp: parse_and_build_def step_Http_version step_Header_value step_Crlf)
qed

theorem terminal_states_witness:
  "state (parse_and_build new_request (''GET / HTTP/1.1'' @ [CR, LF, CR, LF])) = Done \<and>
   feed (parse_and_build new_request (''GET / HTTP/1.1'' @ [CR, LF, CR, LF])) [''GET /other'', ''x''] =
     parse_and_build new_request (''GET / HTTP/1.1'' @ [CR, LF, CR, LF]) \<and>
   state (parse_and_build new_request (''GET / HTTP/1.1'' @ [CR])) = Cr \<and>
   feed (parse_and_build new_request ((''GET / HTTP/1.1'' @ [CR]) @ CHR ''X'' # ''Host: a'')) [''b: c''] =
     (parse_and_build new_request (''GET / HTTP/1.1'' @ [CR]))\<lparr>state := Invalid\<rparr> \<and>
   state (parse_and_build new_request ''GET / HTTP/1.1'') = Http_version \<and>
   state (parse_and_build (parse_and_build new_request ''GET / HTTP/1.1'') [CR]) = Cr"
proof -
  let ?d = "parse_and_build new_request (''GET / HTTP/1.1'' @ [CR, LF, CR, LF])"
  let ?c = "''GET / HTTP/1.1'' @ [CR]"
  let ?v = "parse_and_build new_request ''GET / HTTP/1.1''"
  have d: "state ?d = Done"
    by (simp add: parse_and_build_def new_request_def step_def)
  have c: "state (parse_and_build new_request ?c) = Cr"
    by (simp add: parse_and_build_def new_request_def step_def)
  have v: "state ?v = Http_version"
    by (simp add: parse_and_build_def new_request_def step_def)
  have x: "CHR ''X'' \<noteq> LF" by simp
  from terminal_states [of ?d "[]" "[''GET /other'', ''x'']" "[]" LF] d
  have 1: "feed ?d [''GET /other'', ''x''] = ?d" by blast
  from terminal_states [of new_request "''Host: a''" "[''b: c'']" ?c "CHR ''X''"] c x
  have 2: "feed (parse_and_build new_request (?c @ CHR ''X'' # ''Host: a'')) [''b: c''] =
     (parse_and_build new_request ?c)\<lparr>state := Invalid\<rparr>" by blast
  from terminal_states [of ?v "[]" "[]" "[]" LF] v
  have 3: "state (parse_and_build ?v [CR]) = Cr \<or> state (parse_and_build ?v [CR]) = Crlfcr" by blast
  have 4: "state (parse_and_build ?v [CR]) = Cr"
    using v by (simp add: parse_and_build_def step_Http_version)
  show ?thesis using d c v 1 2 4 by blast
qed

subsection \<open>Header lines\<close>

text \<open>
  A header line inside one call. Header names are stored lower-cased, whatever the
  letter case of the input: after any sequence of chunks fed to a new request every
  stored name is lower-cased. For a header line \<open>name : w\<close> handed whole to
  \<open>parse_and_build\<close> at the start of a line (state \<^verbatim>\<open>crlf\<close>; the name does not start
  with a carriage return and has no colon after its first byte, the value has no carriage
  return): nothing is stored before the carriage return that ends the value; when it is
  consumed the pair is inserted into the header map, the name mapped through \<open>tolower\<close>
  and the value without its leading spaces, and the state is \<^verbatim>\<open>cr\<close>; a name not
  stored before is then found with that value.
\<close>

lemma header_line_in_one_call:
  assumes "state r = Crlf" and "name \<noteq> []" and "hd name \<noteq> CR"
    and "CHR '':'' \<notin> set (tl name)" and "CR \<notin> set w"
  shows "names_lower (headers (feed new_request chunks)) \<and>
         headers (parse_and_build r (name @ '':'' @ w)) = headers r \<and>
         parse_and_build r (name @ '':'' @ w @ [CR]) =
           r\<lparr>headers := insert_header (map tolower name, dropWhile (\<lambda>c. c = SP) w) (headers r),
             state := Cr\<rparr> \<and>
         (map_of (headers r) (map tolower name) = None \<longrightarrow>
            map_of (headers (parse_and_build r (name @ '':'' @ w @ [CR]))) (map tolower name) =
              Some (dropWhile (\<lambda>c. c = SP) w))"
proof (intro conjI impI)
  show "names_lower (headers (feed new_request chunks))"
    by (intro feed_names_lower) (simp add: names_lower_def new_request_def)
  show "headers (parse_and_build r (name @ '':'' @ w)) = headers r"
    using header_line(1) [OF assms] by (simp add: parse_and_build_def)
  show eq: "parse_and_build r (name @ '':'' @ w @ [CR]) =
           r\<lparr>headers := insert_header (map tolower name, dropWhile (\<lambda>c. c = SP) w) (headers r),
             state := Cr\<rparr>"
    using header_line(2) [OF assms] by (simp add: parse_and_build_def)
  assume "map_of (headers r) (map tolower name) = None"
  then show "map_of (headers (parse_and_build r (name @ '':'' @ w @ [CR]))) (map tolower name) =
              Some (dropWhile (\<lambda>c. c = SP) w)"
    unfolding eq by (simp add: map_of_insert_header_new)
qed

lemma header_line_in_one_call_example:
  "state (parse_and_build new_request (''GET / HTTP/1.1'' @ [CR, LF])) = Crlf \<and>
   map_of (headers (parse_and_build (parse_and_build new_request (''GET / HTTP/1.1'' @ [CR, LF]))
      (''Content-Type'' @ '':'' @ ''  text/html'' @ [CR]))) ''content-type'' = Some ''text/html'' \<and>
   names_lower (headers (feed new_request [''GET / HTTP/1.1'' @ [CR, LF] @ ''Conte'', ''nt-Type: a'' @ [CR, LF]]))"
proof -
  let ?r = "parse_and_build new_request (''GET / HTTP/1.1'' @ [CR, LF])"
  have s: "state ?r = Crlf"
    by (simp add: parse_and_build_def new_request_def step_def)
  have e: "headers ?r = []"
    by (simp add: parse_and_build_def new_request_def step_def)
  have h: "map_of (headers ?r) (map tolower ''Content-Type'') = None"
    unfolding e by simp
  have n: "map tolower ''Content-Type'' = ''content-type''"
    by code_simp
  have d: "dropWhile (\<lambda>c. c = SP) ''  text/html'' = ''text/html''"
    by simp
  have a: "''Content-Type'' \<noteq> []" "hd ''Content-Type'' \<noteq> CR"
    "CHR '':'' \<notin> set (tl ''Content-Type'')" "CR \<notin> set ''  text/html''"
    by simp_all
  note t = header_line_in_one_call [OF s a,
      of "[''GET / HTTP/1.1'' @ [CR, LF] @ ''Conte'', ''nt-Type: a'' @ [CR, LF]]"]
  have 1: "map_of (headers (parse_and_build ?r (''Content-Type'' @ '':'' @ ''  text/html'' @ [CR])))
      (map tolower ''Content-Type'') = Some (dropWhile (\<lambda>c. c = SP) ''  text/html'')"
    using t h by blast
  have 2: "names_lower (headers (feed new_request
      [''GET / HTTP/1.1'' @ [CR, LF] @ ''Conte'', ''nt-Type: a'' @ [CR, LF]]))"
    using t by blast
  show ?thesis using s 1 [unfolded n d] 2 by blast
qed

text \<open>
  Claim C3. The request \<open>GET / HTTP/1.1\<close>, \<open>Content-Type: a\<close>, blank line. Parsed in
  one call, the header is stored under \<open>content-type\<close> and a lookup of that name finds
  \<open>a\<close>. Received in two buffers, the first ending after \<open>Conte\<close>, the header is stored
  under \<open>nt-type\<close> and the lookup of \<open>content-type\<close> finds nothing. With the header
  \<open>Content-Type: text/html\<close> and the first buffer ending after \<open>text/\<close>, the pair
  stored when the carriage return is consumed has an empty name and the value \<open>html\<close>.
  The names stored are lower-cased in each case, but they are not the names of the input:
  the pending name and value start empty in every call of \<open>parse_and_build\<close>.
\<close>

theorem split_header_line_lookup_fails:
  "map_of (headers (parse_and_build new_request
      (''GET / HTTP/1.1'' @ [CR, LF] @ ''Content-Type: a'' @ [CR, LF, CR, LF]))) ''content-type'' =
     Some ''a'' \<and>
   feed new_request
      [''GET / HTTP/1.1'' @ [CR, LF] @ ''Conte'', ''nt-Type: a'' @ [CR, LF, CR, LF]] =
     \<lparr>headers = [(''nt-type'', ''a'')], http_method = ''GET'', original_url = ''/'', path = ''/'',
      protocol = ''HTTP'', hostname = [], body = [], http_version = ''1.1'', state = Done\<rparr> \<and>
   map_of (headers (feed new_request
      [''GET / HTTP/1.1'' @ [CR, LF] @ ''Conte'', ''nt-Type: a'' @ [CR, LF, CR, LF]]))
     ''content-type'' = None \<and>
   feed new_request
      [''GET / HTTP/1.1'' @ [CR, LF] @ ''Content-Type: text/'', ''html'' @ [CR, LF, CR, LF]] =
     \<lparr>headers = [([], ''html'')], http_method = ''GET'', original_url = ''/'', path = ''/'',
      protocol = ''HTTP'', hostname = [], body = [], http_version = ''1.1'', state = Done\<rparr>"
  by code_simp



subsection \<open>Chunks\<close>

lemma parse_and_build_append:
  assumes "snd (parse_loop (r, ([], [])) xs) = ([], [])"
  shows "parse_and_build r (xs @ ys) = parse_and_build (parse_and_build r xs) ys"
proof -
  have "parse_loop (r, ([], [])) xs = (parse_and_build r xs, ([], []))"
    using assms by (simp add: parse_and_build_def prod_eq_iff)
  then show ?thesis
    by (simp add: parse_and_build_def parse_loop_append)
qed

text \<open>
  Claim C1. The request \<open>GET / HTTP/1.1\<close>, \<open>Host: a\<close>, blank line, is parsed three
  ways: in one call; in two chunks, the first ending after \<open>Ho\<close>; one byte per call.
  The state and the fields of the request line agree, the header map does not: it holds
  \<open>host\<close> with \<open>a\<close> after the single call, \<open>st\<close> with \<open>a\<close> after the two chunks, and
  an empty name with an empty value after the single bytes. The pending header name and
  value are a local variable of \<open>parse_and_build\<close> and start empty in every call; a
  buffer may be cut without loss only where that pair is empty, as the lemma above says.
\<close>

theorem split_header_line_differs:
  "parse_and_build new_request (''GET / HTTP/1.1'' @ [CR, LF] @ ''Host: a'' @ [CR, LF, CR, LF]) =
     \<lparr>headers = [(''host'', ''a'')], http_method = ''GET'', original_url = ''/'', path = ''/'',
      protocol = ''HTTP'', hostname = [], body = [], http_version = ''1.1'', state = Done\<rparr> \<and>
   feed new_request [''GET / HTTP/1.1'' @ [CR, LF] @ ''Ho'', ''st: a'' @ [CR, LF, CR, LF]] =
     \<lparr>headers = [(''st'', ''a'')], http_method = ''GET'', original_url = ''/'', path = ''/'',
      protocol = ''HTTP'', hostname = [], body = [], http_version = ''1.1'', state = Done\<rparr> \<and>
   feed new_request (map (\<lambda>c. [c]) (''GET / HTTP/1.1'' @ [CR, LF] @ ''Host: a'' @ [CR, LF, CR, LF])) =
     \<lparr>headers = [([], [])], http_method = ''GET'', original_url = ''/'', path = ''/'',
      protocol = ''HTTP'', hostname = [], body = [], http_version = ''1.1'', state = Done\<rparr>"
  by code_simp

subsection \<open>The request line\<close>

text \<open>
  Claim C4. Parsing the request line \<open>GET /foo?x=1 HTTP/1.1\<close> with its line break gives
  the method \<open>GET\<close>, the path \<open>/foo\<close>, the protocol \<open>HTTP\<close> and the version \<open>1.1\<close>;
  the bytes of the query are dropped, and \<open>original_url\<close> is the path \<open>/foo\<close>, without
  the query. The one-pass parser of the older variant, given the same line and the blank
  line it needs, keeps \<open>/foo?x=1\<close> as \<open>original_url\<close> (and lower-cases the method
  and the protocol).
\<close>

theorem request_line_fields:
  "parse_and_build new_request (''GET /foo?x=1 HTTP/1.1'' @ [CR, LF]) =
     \<lparr>headers = [], http_method = ''GET'', original_url = ''/foo'', path = ''/foo'',
      protocol = ''HTTP'', hostname = [], body = [], http_version = ''1.1'', state = Crlf\<rparr> \<and>
   parse (''GET /foo?x=1 HTTP/1.1'' @ [CR, LF, CR, LF]) =
     Inr \<lparr>main_headers = [(''Host'', [])], main_method = ''get'',
          main_original_url = ''/foo?x=1'', main_path = ''/foo'', main_protocol = ''http'',
          main_hostname = [], main_body = [], main_http_version = ''1.1''\<rparr>"
  by code_simp

section \<open>Properties of the connection and the server loop\<close>

text \<open>
  Claim C8. On a socket that was never created and has accepted no peer,
  \<^verbatim>\<open>recv\<close> throws the logic error "socket is not accepted", and \<^verbatim>\<open>listen\<close> and
  \<^verbatim>\<open>accept\<close> throw the logic error "socket is not created". \<^verbatim>\<open>send\<close> has no such
  test: on the same socket it returns normally when the system call succeeds and throws
  a system error when it fails, never a logic error.
\<close>

theorem send_before_accept:
  "socket_send (new_socket 3000) ''x'' 1 0 = Inr () \<and>
   socket_send (new_socket 3000) ''x'' (- 1) 88 = Inl (System_error 88 []) \<and>
   socket_recv eagain (new_socket 3000) sz outcome = Inl (Logic_error ''socket is not accepted'') \<and>
   socket_listen (new_socket 3000) listen_ret errno = Inl (Logic_error ''socket is not created'') \<and>
   socket_accept eagain (new_socket 3000) outcomes = Some (Inl (Logic_error ''socket is not created''))"
  by (simp add: socket_send_def socket_recv_def socket_listen_def socket_accept_def new_socket_def)

text \<open>
  Claim C9. A request with the header \<open>Host: example.com:8080\<close>, received in one piece:
  the loop ends with the state \<^verbatim>\<open>done\<close>, the header stored under \<open>host\<close>, and the
  host name \<open>localhost\<close>, which the loop assigns as a constant. The one-pass parser of
  the older variant gives the host name \<open>example.com\<close> for the same bytes.
\<close>

theorem hostname_is_localhost:
  "receive_request 11 \<lparr>sock = 3, accepted_sock = 4, port = 3000\<rparr> new_request
     [Delivered (''GET / HTTP/1.1'' @ [CR, LF] @ ''Host: example.com:8080'' @ [CR, LF, CR, LF])] =
   Some (Inr \<lparr>headers = [(''host'', ''example.com:8080'')], http_method = ''GET'',
     original_url = ''/'', path = ''/'', protocol = ''HTTP'', hostname = ''localhost'',
     body = [], http_version = ''1.1'', state = Done\<rparr>) \<and>
   parse (''GET / HTTP/1.1'' @ [CR, LF] @ ''Host: example.com:8080'' @ [CR, LF, CR, LF]) =
   Inr \<lparr>main_headers = [(''Host'', ''example.com:8080'')], main_method = ''get'',
     main_original_url = ''/'', main_path = ''/'', main_protocol = ''http'',
     main_hostname = ''example.com'', main_body = [], main_http_version = ''1.1''\<rparr>"
  by code_simp

section \<open>Properties of the response\<close>

subsection \<open>Printing numbers\<close>

lemma decimal_value_snoc:
  "decimal_value (ds @ [d]) = 10 * decimal_value ds + (of_char d - 48)"
  by (simp add: decimal_value_def)

lemma decimal_value_digit: "n < 10 \<Longrightarrow> decimal_value [char_of (48 + n)] = n"
  by (simp add: decimal_value_def)

lemma decimal_value_show_nat: "decimal_value (show_nat n) = n"
proof (induction n rule: show_nat.induct)
  case (1 n)
  show ?case
  proof (cases "n < 10")
    case True
    then show ?thesis
      by (subst show_nat.simps) (simp add: decimal_value_digit)
  next
    case False
    then have "decimal_value (show_nat (n div 10)) = n div 10"
      using 1 by simp
    moreover have "of_char (char_of (48 + n mod 10) :: char) - 48 = n mod 10"
      by simp
    ultimately have "decimal_value (show_nat (n div 10) @ [char_of (48 + n mod 10)]) = n"
      by (simp only: decimal_value_snoc) simp
    then show ?thesis
      using False by (subst show_nat.simps) simp
  qed
qed

lemma show_nat_digits:
  "list_all (\<lambda>c. 48 \<le> (of_char c :: nat) \<and> (of_char c :: nat) \<le> 57) (show_nat n)"
proof (induction n rule: show_nat.induct)
  case (1 n)
  show ?case
  proof (cases "n < 10")
    case True
    then show ?thesis
      by (subst show_nat.simps) simp
  next
    case False
    have "n mod 10 < 10" by simp
    then have "48 + n mod 10 < 256" by linarith
    then have "(of_char (char_of (48 + n mod 10) :: char) :: nat) = 48 + n mod 10"
      by simp
    then show ?thesis
      using False 1 by (subst show_nat.simps) simp
  qed
qed

lemma socket_send_ok: "0 \<le> send_ret \<Longrightarrow> socket_send s buf send_ret errno = Inr ()"
  by (simp add: socket_send_def)

subsection \<open>Content-Length\<close>

text \<open>
  Claim C5. When the write succeeds, the bytes that \<^verbatim>\<open>send\<close> hands to the socket are,
  for a body that is not empty: the status line, the header lines of the response's own
  map, then \<open>Content-Length:\<close> with the decimal numeral of the length of the body (a
  string of digits whose value is that length), \<open>Content-Type: text/html\<close>,
  \<open>Connection: Keep-Alive\<close>, the blank line and the body. For an empty body they are the
  status line, the header lines of the map, \<open>Connection: Keep-Alive\<close> and the blank line:
  \<^verbatim>\<open>send\<close> adds no \<open>Content-Length\<close> line.
\<close>

theorem content_length_iff_body:
  "(body' \<noteq> [] \<and> 0 \<le> send_ret \<longrightarrow>
      fst (send tbl res body' send_ret errno) =
        Inr (status_line res (fst (send_message tbl res)) @ header_lines (res_headers res) @
             ''Content-Length: '' @ show_nat (length body') @ [CR, LF] @
             ''Content-Type: text/html'' @ [CR, LF] @
             ''Connection: Keep-Alive'' @ [CR, LF] @ [CR, LF] @ body') \<and>
      decimal_value (show_nat (length body')) = length body' \<and>
      list_all (\<lambda>c. 48 \<le> (of_char c :: nat) \<and> (of_char c :: nat) \<le> 57)
        (show_nat (length body'))) \<and>
   (body' = [] \<and> 0 \<le> send_ret \<longrightarrow>
      fst (send tbl res body' send_ret errno) =
        Inr (status_line res (fst (send_message tbl res)) @ header_lines (res_headers res) @
             ''Connection: Keep-Alive'' @ [CR, LF] @ [CR, LF]))"
  by (simp add: send_def send_stream_def Let_def socket_send_ok decimal_value_show_nat
      show_nat_digits)

theorem content_length_iff_body_witness:
  "''hello'' \<noteq> [] \<and> (0::int) \<le> 5 \<and>
   fst (send default_status_messages
          (new_response (parse_and_build new_request (''GET / HTTP/1.1'' @ [CR, LF, CR, LF]))
             \<lparr>sock = 3, accepted_sock = 4, port = 3000\<rparr>) ''hello'' 5 0) =
     Inr (''HTTP/1.1 200 OK'' @ [CR, LF] @ ''Content-Length: 5'' @ [CR, LF] @
          ''Content-Type: text/html'' @ [CR, LF] @ ''Connection: Keep-Alive'' @ [CR, LF] @
          [CR, LF] @ ''hello'') \<and>
   fst (send default_status_messages
          (new_response (parse_and_build new_request (''GET / HTTP/1.1'' @ [CR, LF, CR, LF]))
             \<lparr>sock = 3, accepted_sock = 4, port = 3000\<rparr>) [] 0 0) =
     Inr (''HTTP/1.1 200 OK'' @ [CR, LF] @ ''Connection: Keep-Alive'' @ [CR, LF] @ [CR, LF])"
proof -
  let ?res = "new_response (parse_and_build new_request (''GET / HTTP/1.1'' @ [CR, LF, CR, LF]))
             \<lparr>sock = 3, accepted_sock = 4, port = 3000\<rparr>"
  have l: "status_line ?res (fst (send_message default_status_messages ?res)) =
             ''HTTP/1.1 200 OK'' @ [CR, LF]"
    by code_simp
  have h: "header_lines (res_headers ?res) = []"
    by (simp add: header_lines_def new_response_def)
  have n: "show_nat (length ''hello'') = ''5''"
    by code_simp
  have a: "''hello'' \<noteq> []" "(0::int) \<le> 5"
    by simp_all
  have 1: "fst (send default_status_messages ?res ''hello'' 5 0) =
        Inr (status_line ?res (fst (send_message default_status_messages ?res)) @
             header_lines (res_headers ?res) @
             ''Content-Length: '' @ show_nat (length ''hello'') @ [CR, LF] @
             ''Content-Type: text/html'' @ [CR, LF] @
             ''Connection: Keep-Alive'' @ [CR, LF] @ [CR, LF] @ ''hello'')"
    using content_length_iff_body [of "''hello''" 5 default_status_messages ?res 0] a by blast
  have 2: "fst (send default_status_messages ?res [] 0 0) =
        Inr (status_line ?res (fst (send_message default_status_messages ?res)) @
             header_lines (res_headers ?res) @
             ''Connection: Keep-Alive'' @ [CR, LF] @ [CR, LF])"
    using content_length_iff_body [of "[]" 0 default_status_messages ?res 0] by simp
  show ?thesis
    using a unfolding 1 2 l h n by simp
qed

subsection \<open>The status message\<close>

lemma map_of_index_table:
  "map_of (snd (index_table tbl code)) k =
     (if k = code \<and> map_of tbl code = None then Some [] else map_of tbl k)"
  by (auto simp: index_table_def map_add_def split: option.splits)

lemma map_of_table_after:
  "map_of (table_after codes) k =
     (if k = 200 then Some ''OK'' else if k = 400 then Some ''Bad Request''
      else if k = 404 then Some ''Not Found''
      else if k \<in> set codes then Some [] else None)"
proof (induction codes arbitrary: k rule: rev_induct)
  case Nil
  show ?case by (simp add: table_after_def default_status_messages_def)
next
  case (snoc code codes)
  have "table_after (codes @ [code]) = snd (index_table (table_after codes) code)"
    by (simp add: table_after_def)
  then show ?case
    by (simp add: map_of_index_table snoc)
qed

lemma fst_index_table:
  "fst (index_table tbl code) = (case map_of tbl code of None \<Rightarrow> [] | Some text \<Rightarrow> text)"
  by (simp add: index_table_def split: option.splits)

text \<open>
  Claim C6. An override is a status message that is not empty (the source tests
  \<^verbatim>\<open>status_message_.empty()\<close>). Without one, in every state the table can reach,
  the message is \<open>OK\<close> for 200, \<open>Bad Request\<close> for 400, \<open>Not Found\<close> for 404 and empty
  for any other code, so that the status line of a response with status 404 reads
  protocol, slash, version, \<open>404 Not Found\<close>. With an override the message is the text
  that was set.
\<close>

theorem default_status_message:
  "(res_status_message res = [] \<longrightarrow>
      fst (send_message (table_after codes) res) =
        (if res_status res = 200 then ''OK''
         else if res_status res = 400 then ''Bad Request''
         else if res_status res = 404 then ''Not Found''
         else [])) \<and>
   (res_status_message res \<noteq> [] \<longrightarrow>
      fst (send_message tbl res) = res_status_message res) \<and>
   (message \<noteq> [] \<longrightarrow> fst (send_message tbl (status_message res message)) = message) \<and>
   (res_status_message res = [] \<longrightarrow>
      status_line (status res 404) (fst (send_message (table_after codes) (status res 404))) =
        protocol (res_request res) @ ''/'' @ http_version (res_request res) @
        '' 404 Not Found'' @ [CR, LF])"
proof (intro conjI impI)
  assume "res_status_message res = []"
  then show "fst (send_message (table_after codes) res) =
        (if res_status res = 200 then ''OK''
         else if res_status res = 400 then ''Bad Request''
         else if res_status res = 404 then ''Not Found''
         else [])"
    by (simp add: send_message_def fst_index_table map_of_table_after)
next
  assume "res_status_message res \<noteq> []"
  then show "fst (send_message tbl res) = res_status_message res"
    by (simp add: send_message_def)
next
  assume "message \<noteq> []"
  then show "fst (send_message tbl (status_message res message)) = message"
    by (simp add: send_message_def status_message_def)
next
  assume e: "res_status_message res = []"
  have n: "show_int 404 = ''404''" by code_simp
  have "fst (send_message (table_after codes) (status res 404)) = ''Not Found''"
    using e by (simp add: send_message_def status_def fst_index_table map_of_table_after)
  then show "status_line (status res 404) (fst (send_message (table_after codes) (status res 404))) =
        protocol (res_request res) @ ''/'' @ http_version (res_request res) @
        '' 404 Not Found'' @ [CR, LF]"
    by (simp add: status_line_def status_def n)
qed

theorem default_status_message_witness:
  "res_status_message (status (new_response
      (parse_and_build new_request (''GET /nothing HTTP/1.1'' @ [CR, LF, CR, LF]))
      (new_socket 3000)) 500) = [] \<and>
   fst (send_message (table_after [500, 200])
     (status (new_response (parse_and_build new_request (''GET /nothing HTTP/1.1'' @ [CR, LF, CR, LF]))
        (new_socket 3000)) 500)) = [] \<and>
   ''Gone'' \<noteq> [] \<and>
   fst (send_message default_status_messages
     (status_message (status (new_response
        (parse_and_build new_request (''GET /nothing HTTP/1.1'' @ [CR, LF, CR, LF]))
        (new_socket 3000)) 500) ''Gone'')) = ''Gone'' \<and>
   status_line (status (status (new_response
        (parse_and_build new_request (''GET /nothing HTTP/1.1'' @ [CR, LF, CR, LF]))
        (new_socket 3000)) 500) 404)
     (fst (send_message (table_after [500, 200]) (status (status (new_response
        (parse_and_build new_request (''GET /nothing HTTP/1.1'' @ [CR, LF, CR, LF]))
        (new_socket 3000)) 500) 404))) = ''HTTP/1.1 404 Not Found'' @ [CR, LF]"
proof -
  let ?res = "status (new_response
      (parse_and_build new_request (''GET /nothing HTTP/1.1'' @ [CR, LF, CR, LF]))
      (new_socket 3000)) 500"
  have e: "res_status_message ?res = []"
    by (simp add: status_def new_response_def)
  have s: "res_status ?res = 500"
    by (simp add: status_def new_response_def)
  have g: "''Gone'' \<noteq> []" by simp
  have p: "protocol (res_request ?res) = ''HTTP''" "http_version (res_request ?res) = ''1.1''"
    by code_simp+
  note t = default_status_message [of ?res "[500, 200]" default_status_messages "''Gone''"]
  have 1: "fst (send_message (table_after [500, 200]) ?res) = []"
    using t e s by simp
  have 2: "fst (send_message default_status_messages (status_message ?res ''Gone'')) = ''Gone''"
    using t g by blast
  have 3: "status_line (status ?res 404)
       (fst (send_message (table_after [500, 200]) (status ?res 404))) =
        protocol (res_request ?res) @ ''/'' @ http_version (res_request ?res) @
        '' 404 Not Found'' @ [CR, LF]"
    using t e by blast
  show ?thesis
    using e 1 g 2 3 [unfolded p] by simp
qed

subsection \<open>Header names of the response\<close>

lemma lower_header_empty: "lower_header header = []"
  by (simp add: lower_header_def str_value_def transform_begin_def reserve_def empty_string_def)

text \<open>
  Claim C7. In \<^verbatim>\<open>set_header\<close> and \<^verbatim>\<open>get_header\<close> the lower-cased bytes are written
  into the reserved storage of \<^verbatim>\<open>lower_header\<close>, whose size stays 0: the name used
  as the key is the empty string for every header. \<open>set_header\<close> with \<open>Content-Type\<close>
  stores the value under the empty name, and after a second \<open>set_header\<close> with
  \<open>X-Powered-By\<close> (which adds nothing, the empty name being taken) \<open>get_header\<close> with
  \<open>x-powered-by\<close> returns the value given for \<open>Content-Type\<close>.
\<close>

theorem set_header_stores_empty_name:
  "lower_header header = [] \<and>
   res_headers (set_header (new_response new_request (new_socket 3000)) ''Content-Type'' ''text/plain'') =
     [([], ''text/plain'')] \<and>
   get_header (set_header (set_header (new_response new_request (new_socket 3000))
       ''Content-Type'' ''text/plain'') ''X-Powered-By'' ''nhs'') ''x-powered-by'' =
     Inr ''text/plain''"
  by (simp add: lower_header_empty set_header_def get_header_def new_response_def insert_header_def)

end
